theory Spec2Isabelle
  imports Main "HOL-Library.Log_Nat"
begin

section \<open>JavaScript numbers\<close>

text \<open>
  The source computes with JavaScript numbers, which are IEEE-754 binary64 values.
  A number is a sign with a non-negative magnitude, a signed infinity, or NaN; the
  sign is \<open>True\<close> for negative values, so \<open>Finite True 0\<close> is the negative zero.
  Arithmetic is the exact rational operation followed by rounding to the nearest
  representable value, ties to even.
\<close>

datatype number = Finite bool rat | Infinity bool | NaN

definition pow2 :: "int \<Rightarrow> rat" where
  "pow2 e = (if 0 \<le> e then 2 ^ nat e else 1 / 2 ^ nat (- e))"

text \<open>The binary exponent of a positive rational: \<open>pow2 e \<le> x < pow2 (e + 1)\<close>.\<close>

definition floor_log2 :: "rat \<Rightarrow> int" where
  "floor_log2 x =
     (let (p, q) = quotient_of x; d = bitlen p - bitlen q
      in if pow2 d \<le> x then d else d - 1)"

definition round_half_even :: "rat \<Rightarrow> int" where
  "round_half_even y =
     (let f = \<lfloor>y\<rfloor>; d = y - of_int f
      in if d < 1 / 2 then f else if 1 / 2 < d then f + 1
         else if even f then f else f + 1)"

text \<open>
  Rounding of a non-negative magnitude to the binary64 grid: 53 significant bits, and
  below \<open>pow2 (- 1022)\<close> the fixed spacing \<open>pow2 (- 1074)\<close> of the subnormal numbers.
\<close>

definition fl_mag :: "rat \<Rightarrow> rat" where
  "fl_mag x =
     (if x \<le> 0 then 0
      else let e = max (floor_log2 x) (- 1022); q = pow2 (e - 52)
           in of_int (round_half_even (x / q)) * q)"

definition round_to_number :: "bool \<Rightarrow> rat \<Rightarrow> number" where
  "round_to_number s x =
     (let m = fl_mag x
      in if 0 < m \<and> 1024 \<le> floor_log2 m then Infinity s else Finite s m)"

text \<open>A non-negative numeric literal of the source text.\<close>

definition js_lit :: "rat \<Rightarrow> number" where
  "js_lit x = round_to_number False x"

definition signed :: "bool \<Rightarrow> rat \<Rightarrow> rat" where
  "signed s m = (if s then - m else m)"

fun js_lt :: "number \<Rightarrow> number \<Rightarrow> bool" where
  "js_lt NaN _ = False"
| "js_lt _ NaN = False"
| "js_lt (Infinity s) (Infinity t) = (s \<and> \<not> t)"
| "js_lt (Infinity s) (Finite t n) = s"
| "js_lt (Finite s m) (Infinity t) = (\<not> t)"
| "js_lt (Finite s m) (Finite t n) = (signed s m < signed t n)"

definition js_gt :: "number \<Rightarrow> number \<Rightarrow> bool" where
  "js_gt a b = js_lt b a"

definition js_le :: "number \<Rightarrow> number \<Rightarrow> bool" where
  "js_le a b = (a \<noteq> NaN \<and> b \<noteq> NaN \<and> \<not> js_lt b a)"

definition js_ge :: "number \<Rightarrow> number \<Rightarrow> bool" where
  "js_ge a b = js_le b a"

fun js_div :: "number \<Rightarrow> number \<Rightarrow> number" where
  "js_div NaN _ = NaN"
| "js_div _ NaN = NaN"
| "js_div (Infinity s) (Infinity t) = NaN"
| "js_div (Infinity s) (Finite t n) = Infinity (s \<noteq> t)"
| "js_div (Finite s m) (Infinity t) = Finite (s \<noteq> t) 0"
| "js_div (Finite s m) (Finite t n) =
     (if n = 0 then (if m = 0 then NaN else Infinity (s \<noteq> t))
      else round_to_number (s \<noteq> t) (m / n))"

fun js_mul :: "number \<Rightarrow> number \<Rightarrow> number" where
  "js_mul NaN _ = NaN"
| "js_mul _ NaN = NaN"
| "js_mul (Infinity s) (Infinity t) = Infinity (s \<noteq> t)"
| "js_mul (Infinity s) (Finite t n) = (if n = 0 then NaN else Infinity (s \<noteq> t))"
| "js_mul (Finite s m) (Infinity t) = (if m = 0 then NaN else Infinity (s \<noteq> t))"
| "js_mul (Finite s m) (Finite t n) = round_to_number (s \<noteq> t) (m * n)"

text \<open>
  \<open>Math.round\<close>: the nearest integer, a tie going towards positive infinity; NaN and the
  infinities are returned as they are, and a result of zero keeps the sign of the argument.
\<close>

fun Math_round :: "number \<Rightarrow> number" where
  "Math_round NaN = NaN"
| "Math_round (Infinity s) = Infinity s"
| "Math_round (Finite s m) =
     (let n = \<lfloor>signed s m + 1 / 2\<rfloor>
      in if n = 0 then Finite s 0 else Finite (n < 0) (of_int \<bar>n\<bar>))"

section \<open>Platform and window\<close>

text \<open>
  What the detector reads from the host: \<open>Platform.isTV\<close>, \<open>Platform.OS\<close> and the
  result of \<open>Dimensions.get('window')\<close>.
\<close>

record env =
  Platform_isTV :: bool
  Platform_OS :: string
  window_width :: number
  window_height :: number

definition TV_MIN_WIDTH :: number where
  "TV_MIN_WIDTH = js_lit 1280"

definition TV_MIN_HEIGHT :: number where
  "TV_MIN_HEIGHT = js_lit 720"

section \<open>Device detection\<close>

definition detectTVDevice :: "bool \<Rightarrow> env \<Rightarrow> bool" where
  "detectTVDevice forceTVMode e =
     (if forceTVMode then True
      else if Platform_isTV e then True
      else if Platform_OS e = ''android'' then
        (let width = window_width e; height = window_height e;
             isLandscape = js_gt width height;
             isLargeScreen = (js_ge width TV_MIN_WIDTH \<and> js_ge height TV_MIN_HEIGHT)
         in if isLandscape \<and> isLargeScreen then
              (let aspectRatio = js_div width height;
                   isTVAspectRatio =
                     (js_ge aspectRatio (js_lit (17 / 10)) \<and> js_le aspectRatio (js_lit (24 / 10)))
               in isTVAspectRatio)
            else False)
      else False)"

definition isAndroidTV :: "env \<Rightarrow> bool" where
  "isAndroidTV e =
     (if Platform_isTV e then True
      else if Platform_OS e = ''android'' then
        (let width = window_width e; height = window_height e
         in if js_ge width TV_MIN_WIDTH \<and> js_ge height TV_MIN_HEIGHT \<and> js_gt width height then
              (let aspectRatio = js_div width height
               in js_ge aspectRatio (js_lit (17 / 10)) \<and> js_le aspectRatio (js_lit (24 / 10)))
            else False)
      else False)"

section \<open>Scaled dimensions\<close>

record font_sizes =
  title :: number
  body :: number
  caption :: number

record spacings =
  small :: number
  medium :: number
  large :: number

record tv_dimensions =
  posterWidth :: number
  posterHeight :: number
  iconSize :: number
  fontSize :: font_sizes
  spacing :: spacings
  focusBorderWidth :: number

definition calculateTVDimensions :: "env \<Rightarrow> tv_dimensions" where
  "calculateTVDimensions e =
     (let width = window_width e; height = window_height e;
          baseWidth = js_lit 1920;
          scale = js_div width baseWidth
      in \<lparr>posterWidth = Math_round (js_mul (js_lit 200) scale),
          posterHeight = Math_round (js_mul (js_lit 300) scale),
          iconSize = Math_round (js_mul (js_lit 32) scale),
          fontSize = \<lparr>title = Math_round (js_mul (js_lit 28) scale),
                      body = Math_round (js_mul (js_lit 20) scale),
                      caption = Math_round (js_mul (js_lit 16) scale)\<rparr>,
          spacing = \<lparr>small = Math_round (js_mul (js_lit 8) scale),
                     medium = Math_round (js_mul (js_lit 16) scale),
                     large = Math_round (js_mul (js_lit 32) scale)\<rparr>,
          focusBorderWidth = Math_round (js_mul (js_lit 4) scale)\<rparr>)"

text \<open>
  The metric table as the specification words it: ten named metrics, each with a base
  value, and every metric the rounded product of its base value and
  \<open>scale = viewportWidth / 1920\<close>.
\<close>

datatype metric =
  PosterWidth | PosterHeight | IconSize | TitleFont | BodyFont | CaptionFont
  | SpacingSmall | SpacingMedium | SpacingLarge | FocusBorder

fun base_value :: "metric \<Rightarrow> rat" where
  "base_value PosterWidth = 200"
| "base_value PosterHeight = 300"
| "base_value IconSize = 32"
| "base_value TitleFont = 28"
| "base_value BodyFont = 20"
| "base_value CaptionFont = 16"
| "base_value SpacingSmall = 8"
| "base_value SpacingMedium = 16"
| "base_value SpacingLarge = 32"
| "base_value FocusBorder = 4"

definition computeScaleMetrics_spec :: "number \<Rightarrow> metric \<Rightarrow> number" where
  "computeScaleMetrics_spec viewportWidth m =
     (let scale = js_div viewportWidth (js_lit 1920)
      in Math_round (js_mul (js_lit (base_value m)) scale))"

text \<open>The field of the source's result object that holds a metric.\<close>

fun metric_field :: "metric \<Rightarrow> tv_dimensions \<Rightarrow> number" where
  "metric_field PosterWidth d = posterWidth d"
| "metric_field PosterHeight d = posterHeight d"
| "metric_field IconSize d = iconSize d"
| "metric_field TitleFont d = title (fontSize d)"
| "metric_field BodyFont d = body (fontSize d)"
| "metric_field CaptionFont d = caption (fontSize d)"
| "metric_field SpacingSmall d = small (spacing d)"
| "metric_field SpacingMedium d = medium (spacing d)"
| "metric_field SpacingLarge d = large (spacing d)"
| "metric_field FocusBorder d = focusBorderWidth d"

section \<open>Remote events\<close>

definition TV_REMOTE_KEYS :: "(string \<times> string) list" where
  "TV_REMOTE_KEYS =
     [(''UP'', ''up''), (''DOWN'', ''down''), (''LEFT'', ''left''), (''RIGHT'', ''right''),
      (''SELECT'', ''select''), (''PLAY_PAUSE'', ''playPause''), (''REWIND'', ''rewind''),
      (''FAST_FORWARD'', ''fastForward''), (''BACK'', ''back''), (''MENU'', ''menu'')]"

text \<open>The strings of the type \<open>TVRemoteKey\<close>: the values of \<open>TV_REMOTE_KEYS\<close>.\<close>

definition TVRemoteKey :: "string set" where
  "TVRemoteKey = set (map snd TV_REMOTE_KEYS)"

text \<open>
  The phase of a key event: the source's strings \<open>'down'\<close>, \<open>'up'\<close> and \<open>'long-press'\<close>,
  which the specification calls Pressed, Released and LongPressed.
\<close>

datatype key_action = Down | Up | LongPress

text \<open>The host's notification (\<open>HWEvent\<close>) and the event handed to the consumer.\<close>

record hw_event =
  hw_eventType :: string
  hw_eventKeyAction :: int
  hw_tag :: "int option"

record tv_remote_event =
  eventType :: string
  eventKeyAction :: key_action
  tag :: "int option"

text \<open>
  The object literal built in the subscription callback. The cast
  \<open>hwEvent.eventType as TVRemoteKey\<close> is erased at run time: the string is copied.
\<close>

definition to_remote_event :: "hw_event \<Rightarrow> tv_remote_event" where
  "to_remote_event hwEvent =
     \<lparr>eventType = hw_eventType hwEvent,
      eventKeyAction =
        (if hw_eventKeyAction hwEvent = 0 then Down
         else if hw_eventKeyAction hwEvent = 1 then Up else LongPress),
      tag = hw_tag hwEvent\<rparr>"

text \<open>
  The callback passed to \<open>TVEventHandler.enable\<close>. A falsy \<open>hwEvent\<close> is \<open>None\<close>. The result
  lists the calls of the consumer's handler that the callback makes, in order.
\<close>

definition on_hw_event :: "'h \<Rightarrow> hw_event option \<Rightarrow> ('h \<times> tv_remote_event) list" where
  "on_hw_event handler hwEvent =
     (case hwEvent of
        None \<Rightarrow> []
      | Some hw \<Rightarrow>
          (let event = to_remote_event hw
           in if eventKeyAction event = Down \<or> eventKeyAction event = LongPress
              then [(handler, event)] else []))"

section \<open>Registration of a remote handler\<close>

text \<open>
  The state that the effects of \<open>useRemoteHandler\<close> work on. The source owns
  \<open>tvEventHandlerRef\<close>, one ref for the whole hook; the rest is the host's: the
  \<open>TVEventHandler\<close> objects that are enabled, each with the consumer handler its callback
  forwards to, and the number of objects created so far (an object is named by its
  creation index).
\<close>

record 'h remote_state =
  tvEventHandlerRef :: "nat option"
  subscriptions :: "(nat \<times> 'h) list"
  allocated :: nat

definition initial_remote_state :: "'h remote_state" where
  "initial_remote_state = \<lparr>tvEventHandlerRef = None, subscriptions = [], allocated = 0\<rparr>"

definition TVEventHandler_enable :: "nat \<Rightarrow> 'h \<Rightarrow> 'h remote_state \<Rightarrow> 'h remote_state" where
  "TVEventHandler_enable obj handler s = s\<lparr>subscriptions := subscriptions s @ [(obj, handler)]\<rparr>"

definition TVEventHandler_disable :: "nat \<Rightarrow> 'h remote_state \<Rightarrow> 'h remote_state" where
  "TVEventHandler_disable obj s =
     s\<lparr>subscriptions := filter (\<lambda>(i, h). i \<noteq> obj) (subscriptions s)\<rparr>"

text \<open>
  The body of the effect. The second component of the result tells whether the body
  returned a cleanup function.
\<close>

definition effect_body :: "'h \<Rightarrow> bool \<Rightarrow> 'h remote_state \<Rightarrow> 'h remote_state \<times> bool" where
  "effect_body handler isTVDevice s =
     (if \<not> isTVDevice then (s, False)
      else
        (let tvEventHandler = allocated s;
             s1 = s\<lparr>allocated := Suc (allocated s)\<rparr>;
             s2 = s1\<lparr>tvEventHandlerRef := Some tvEventHandler\<rparr>;
             s3 = TVEventHandler_enable tvEventHandler handler s2
         in (s3, True)))"

text \<open>
  The cleanup function: it disables whatever the ref holds when it runs, which need not
  be the object that the same effect created.
\<close>

definition effect_cleanup :: "'h remote_state \<Rightarrow> 'h remote_state" where
  "effect_cleanup s =
     (case tvEventHandlerRef s of
        None \<Rightarrow> s
      | Some current \<Rightarrow> (TVEventHandler_disable current s)\<lparr>tvEventHandlerRef := None\<rparr>)"

text \<open>
  One call of \<open>useRemoteHandler\<close> during a render is one call of \<open>useEffect\<close>: it adds one
  effect to those of the render, with the dependency array \<open>[handler, isTVDevice]\<close>, the
  body \<open>effect_body handler isTVDevice\<close> and the cleanup \<open>effect_cleanup\<close>. Every call has
  its own effect; all of them share the ref.
\<close>

definition useRemoteHandler :: "'h \<Rightarrow> bool \<Rightarrow> ('h \<times> bool) list \<Rightarrow> ('h \<times> bool) list" where
  "useRemoteHandler handler isTVDevice effects = effects @ [(handler, isTVDevice)]"

text \<open>
  An owner of the hook has a fixed number \<open>n\<close> of call sites of \<open>useRemoteHandler\<close> (React
  requires the same hook calls in every render); a render passes the handler
  \<open>handlers i\<close> at call site \<open>i\<close>.
\<close>

definition render_effects :: "nat \<Rightarrow> (nat \<Rightarrow> 'h) \<Rightarrow> bool \<Rightarrow> ('h \<times> bool) list" where
  "render_effects n handlers isTVDevice =
     foldl (\<lambda>effects i. useRemoteHandler (handlers i) isTVDevice effects) [] [0..<n]"

text \<open>
  What React keeps for each effect of a mounted owner: the dependency array of its last
  run and whether that run returned a cleanup function. The owner's state is the state
  above with these slots; there are none while the owner is not mounted.
\<close>

record 'h effect_slot =
  slot_deps :: "'h \<times> bool"
  slot_has_cleanup :: bool

record 'h owner_state =
  remote :: "'h remote_state"
  effect_slots :: "'h effect_slot list option"

definition initial_owner_state :: "'h owner_state" where
  "initial_owner_state = \<lparr>remote = initial_remote_state, effect_slots = None\<rparr>"

text \<open>
  React's contract for the effects of one owner. After the first render every effect
  runs, in the order of the calls. After a later render the effects whose dependencies
  changed run again: first the cleanup functions of their previous runs, in order, then
  their bodies, in order. At unmount the cleanup functions of all effects run, in order.
\<close>

fun run_cleanups :: "bool list \<Rightarrow> 'h remote_state \<Rightarrow> 'h remote_state" where
  "run_cleanups [] s = s"
| "run_cleanups (due # rest) s = run_cleanups rest (if due then effect_cleanup s else s)"

definition run_effect :: "'h \<times> bool \<Rightarrow> 'h remote_state \<Rightarrow> 'h remote_state \<times> 'h effect_slot" where
  "run_effect deps s =
     (let (s', cleanup) = effect_body (fst deps) (snd deps) s
      in (s', \<lparr>slot_deps = deps, slot_has_cleanup = cleanup\<rparr>))"

fun run_effects ::
  "('h effect_slot option \<times> ('h \<times> bool)) list \<Rightarrow> 'h remote_state
     \<Rightarrow> 'h remote_state \<times> 'h effect_slot list" where
  "run_effects [] s = (s, [])"
| "run_effects ((old, deps) # rest) s =
     (let (s1, slot) =
            (case old of
               None \<Rightarrow> run_effect deps s
             | Some kept \<Rightarrow> if slot_deps kept = deps then (s, kept) else run_effect deps s);
          (s2, slots) = run_effects rest s1
      in (s2, slot # slots))"

definition commit :: "('h \<times> bool) list \<Rightarrow> 'h owner_state \<Rightarrow> 'h owner_state" where
  "commit effects st =
     (case effect_slots st of
        None \<Rightarrow>
          (let (s, slots) = run_effects (map (Pair None) effects) (remote st)
           in \<lparr>remote = s, effect_slots = Some slots\<rparr>)
      | Some olds \<Rightarrow>
          (let due = map (\<lambda>(old, deps). slot_deps old \<noteq> deps \<and> slot_has_cleanup old)
                       (zip olds effects);
               s1 = run_cleanups due (remote st);
               (s2, slots) = run_effects (zip (map Some olds) effects) s1
           in \<lparr>remote = s2, effect_slots = Some slots\<rparr>))"

definition unmount :: "'h owner_state \<Rightarrow> 'h owner_state" where
  "unmount st =
     (case effect_slots st of
        None \<Rightarrow> st
      | Some olds \<Rightarrow>
          \<lparr>remote = run_cleanups (map slot_has_cleanup olds) (remote st), effect_slots = None\<rparr>)"

text \<open>
  The life of an owner with \<open>n\<close> call sites: renders, each with the handlers it passes
  and the current classification, and unmounts.
\<close>

datatype 'h lifecycle = Render "nat \<Rightarrow> 'h" bool | Unmount

fun lifecycle_step :: "nat \<Rightarrow> 'h owner_state \<Rightarrow> 'h lifecycle \<Rightarrow> 'h owner_state" where
  "lifecycle_step n st (Render handlers isTVDevice) =
     commit (render_effects n handlers isTVDevice) st"
| "lifecycle_step n st Unmount = unmount st"

definition run_lifecycle :: "nat \<Rightarrow> 'h lifecycle list \<Rightarrow> 'h owner_state" where
  "run_lifecycle n evs = foldl (lifecycle_step n) initial_owner_state evs"

text \<open>The host emits a notification: every enabled object's callback is called.\<close>

definition emit :: "hw_event option \<Rightarrow> 'h remote_state \<Rightarrow> ('h \<times> tv_remote_event) list" where
  "emit hwEvent s = concat (map (\<lambda>(obj, handler). on_hw_event handler hwEvent) (subscriptions s))"

text \<open>
  What holds between renders of an owner with one call site: while it is not mounted,
  or mounted on a device that is not a TV, the ref is empty and nothing is enabled;
  while it is mounted on a TV the ref holds the one enabled object, which forwards to
  the handler of the last effect run, and that run has left a cleanup function.
\<close>

definition single_inv :: "'h owner_state \<Rightarrow> bool" where
  "single_inv st =
     (case effect_slots st of
        None \<Rightarrow> tvEventHandlerRef (remote st) = None \<and> subscriptions (remote st) = []
      | Some slots \<Rightarrow>
          (case slots of
             [slot] \<Rightarrow>
               if snd (slot_deps slot)
               then slot_has_cleanup slot \<and> tvEventHandlerRef (remote st) \<noteq> None
                    \<and> subscriptions (remote st) =
                        [(the (tvEventHandlerRef (remote st)), fst (slot_deps slot))]
               else \<not> slot_has_cleanup slot \<and> tvEventHandlerRef (remote st) = None
                    \<and> subscriptions (remote st) = []
           | _ \<Rightarrow> False))"

section \<open>The hook's memoised results\<close>

record settings =
  forceTVMode :: "bool option"

text \<open>
  React's \<open>useMemo\<close>: the slot holds the dependencies and the value of the last
  computation; the value is computed again only when the dependencies differ.
\<close>

definition useMemo :: "('d \<times> 'v) option \<Rightarrow> (unit \<Rightarrow> 'v) \<Rightarrow> 'd \<Rightarrow> ('d \<times> 'v) option \<times> 'v" where
  "useMemo slot compute deps =
     (case slot of
        None \<Rightarrow> (let v = compute () in (Some (deps, v), v))
      | Some (d, v) \<Rightarrow>
          if d = deps then (slot, v) else (let v' = compute () in (Some (deps, v'), v')))"

record hook_state =
  isTVDevice_memo :: "(bool option \<times> bool) option"
  tvDimensions_memo :: "(unit \<times> tv_dimensions) option"

definition initial_hook_state :: hook_state where
  "initial_hook_state = \<lparr>isTVDevice_memo = None, tvDimensions_memo = None\<rparr>"

record tv_device_result =
  isTVDevice :: bool
  tvDimensions :: tv_dimensions

text \<open>
  One render of \<open>useTVDevice\<close>: the classification is memoised on
  \<open>settings.forceTVMode\<close>, the dimensions on the empty dependency array.
\<close>

definition useTVDevice :: "hook_state \<Rightarrow> settings \<Rightarrow> env \<Rightarrow> hook_state \<times> tv_device_result" where
  "useTVDevice st settings e =
     (let (m1, isTV) =
            useMemo (isTVDevice_memo st)
              (\<lambda>_. detectTVDevice (case forceTVMode settings of None \<Rightarrow> False | Some b \<Rightarrow> b) e)
              (forceTVMode settings);
          (m2, dims) = useMemo (tvDimensions_memo st) (\<lambda>_. calculateTVDimensions e) ()
      in (\<lparr>isTVDevice_memo = m1, tvDimensions_memo = m2\<rparr>,
          \<lparr>isTVDevice = isTV, tvDimensions = dims\<rparr>))"

text \<open>The hook's state after a sequence of renders, each with its settings and environment.\<close>

definition hook_state_after :: "hook_state \<Rightarrow> (settings \<times> env) list \<Rightarrow> hook_state" where
  "hook_state_after st rs = foldl (\<lambda>st (settings, e). fst (useTVDevice st settings e)) st rs"

section \<open>Tab layout\<close>

datatype screen = HomeScreen | LibraryScreen | SearchScreen | DownloadsScreen | SettingsScreen

definition SCREEN_COMPONENTS :: "(string \<times> screen) list" where
  "SCREEN_COMPONENTS =
     [(''Home'', HomeScreen), (''Library'', LibraryScreen), (''Search'', SearchScreen),
      (''Downloads'', DownloadsScreen), (''Settings'', SettingsScreen)]"

text \<open>
  \<open>SCREEN_COMPONENTS\<close> is an object literal, so its prototype is \<open>Object.prototype\<close>, and
  a property read that finds no own property continues there. These are the property
  names of \<open>Object.prototype\<close> in ECMAScript; all but \<open>__proto__\<close> hold functions, and
  \<open>__proto__\<close> read on the literal gives \<open>Object.prototype\<close> itself.
\<close>

definition Object_prototype :: "string list" where
  "Object_prototype =
     [''constructor'', ''hasOwnProperty'', ''isPrototypeOf'', ''propertyIsEnumerable'',
      ''toLocaleString'', ''toString'', ''valueOf'', ''__proto__'',
      ''__defineGetter__'', ''__defineSetter__'', ''__lookupGetter__'', ''__lookupSetter__'']"

datatype js_value = Component screen | Inherited string | Undefined

definition js_get :: "(string \<times> screen) list \<Rightarrow> string \<Rightarrow> js_value" where
  "js_get obj key =
     (case map_of obj key of
        Some c \<Rightarrow> Component c
      | None \<Rightarrow> if key \<in> set Object_prototype then Inherited key else Undefined)"

fun truthy :: "js_value \<Rightarrow> bool" where
  "truthy Undefined = False"
| "truthy (Component c) = True"
| "truthy (Inherited k) = True"

text \<open>\<open>SCREEN_COMPONENTS[activeRoute] || HomeScreen\<close>\<close>

definition CurrentScreen :: "string \<Rightarrow> js_value" where
  "CurrentScreen activeRoute =
     (let v = js_get SCREEN_COMPONENTS activeRoute
      in if truthy v then v else Component HomeScreen)"

text \<open>
  The first render of \<open>TVTabLayout\<close>: \<open>initialRoute\<close> defaults to \<open>'Home'\<close>, the state
  \<open>activeRoute\<close> starts as \<open>initialRoute\<close>, and the content area holds an element of
  type \<open>CurrentScreen\<close>.
\<close>

definition TVTabLayout :: "string option \<Rightarrow> js_value" where
  "TVTabLayout initialRoute =
     (let activeRoute = (case initialRoute of None \<Rightarrow> ''Home'' | Some r \<Rightarrow> r)
      in CurrentScreen activeRoute)"

section \<open>Evaluation of numbers\<close>

lemma js_lit_int_values:
  "js_lit 0 = Finite False 0"
  "js_lit 4 = Finite False 4"
  "js_lit 8 = Finite False 8"
  "js_lit 16 = Finite False 16"
  "js_lit 20 = Finite False 20"
  "js_lit 28 = Finite False 28"
  "js_lit 32 = Finite False 32"
  "js_lit 200 = Finite False 200"
  "js_lit 300 = Finite False 300"
  "js_lit 720 = Finite False 720"
  "js_lit 800 = Finite False 800"
  "js_lit 1080 = Finite False 1080"
  "js_lit 1280 = Finite False 1280"
  "js_lit 1920 = Finite False 1920"
  by code_simp+

lemma js_lit_17_10: "js_lit (17 / 10) = Finite False (7656119366529843 / 4503599627370496)"
  by code_simp

lemma js_lit_24_10: "js_lit (24 / 10) = Finite False (5404319552844595 / 2251799813685248)"
  by code_simp

lemma window_1920_1080:
  "js_gt (js_lit 1920) (js_lit 1080)"
  "js_ge (js_lit 1920) TV_MIN_WIDTH"
  "js_ge (js_lit 1080) TV_MIN_HEIGHT"
  "js_ge (js_div (js_lit 1920) (js_lit 1080)) (js_lit (17 / 10))"
  "js_le (js_div (js_lit 1920) (js_lit 1080)) (js_lit (24 / 10))"
  by code_simp+

lemma window_1280_800:
  "js_gt (js_lit 1280) (js_lit 800)"
  "js_ge (js_lit 1280) TV_MIN_WIDTH"
  "js_ge (js_lit 800) TV_MIN_HEIGHT"
  "\<not> js_ge (js_div (js_lit 1280) (js_lit 800)) (js_lit (17 / 10))"
  by code_simp+

lemma scale_1920: "js_div (js_lit 1920) (js_lit 1920) = Finite False 1"
  by code_simp

lemma round_base_1920:
  "Math_round (js_mul (js_lit (base_value m)) (Finite False 1)) = js_lit (base_value m)"
  by (cases m; simp; code_simp)

lemma scale_0: "js_div (js_lit 0) (js_lit 1920) = Finite False 0"
  by code_simp

lemma round_base_0:
  "Math_round (js_mul (js_lit (base_value m)) (Finite False 0)) = js_lit 0"
  by (cases m; simp; code_simp)

text \<open>
  The arithmetic is binary64, not exact: at a window width of 176 the exact product
  \<open>300 * 176 / 1920\<close> is \<open>27.5\<close>, the computed one lies just below it, and the poster
  height is 27.
\<close>

lemma posterHeight_176:
  "Math_round (js_mul (js_lit 300) (js_div (js_lit 176) (js_lit 1920))) = js_lit 27"
  by code_simp

section \<open>Rounding is monotone\<close>

text \<open>
  Rounding to binary64 never reverses an order. With it the two aspect-ratio tests of the
  detector can be compared with the exact quotient when the window sizes are integers.
\<close>

lemma pow2_powi: "pow2 e = 2 powi e"
  by (simp add: pow2_def power_int_def field_simps)

lemma pow2_pos: "0 < pow2 e"
  by (simp add: pow2_powi)

lemma pow2_add: "pow2 (a + b) = pow2 a * pow2 b"
  by (simp add: pow2_powi power_int_add)

lemma pow2_mono: "a \<le> b \<Longrightarrow> pow2 a \<le> pow2 b"
  by (simp add: pow2_powi power_int_increasing)

lemma pow2_less_cancel: "pow2 a < pow2 b \<Longrightarrow> a < b"
  using pow2_mono [of b a] by (cases "a < b") simp_all

lemma pow2_nat: "pow2 (int n) = 2 ^ n"
  by (simp add: pow2_def)

lemma floor_log2_bounds:
  assumes "0 < x"
  shows "pow2 (floor_log2 x) \<le> x" and "x < pow2 (floor_log2 x + 1)"
proof -
  obtain p q where pq: "quotient_of x = (p, q)" by (cases "quotient_of x")
  have q: "0 < q" using quotient_of_denom_pos [OF pq] .
  have x: "x = of_int p / of_int q" using quotient_of_div [OF pq] .
  have p: "0 < p" using assms q by (simp add: x zero_less_divide_iff)
  define d where "d = bitlen p - bitlen q"
  have bp: "2 ^ nat (bitlen p - 1) \<le> p" "p < 2 ^ nat (bitlen p)"
    using bitlen_bounds [OF p] by simp_all
  have bq: "2 ^ nat (bitlen q - 1) \<le> q" "q < 2 ^ nat (bitlen q)"
    using bitlen_bounds [OF q] by simp_all
  have lp: "1 \<le> bitlen p" using p bitlen_eq_zero_iff [of p] bitlen_nonneg [of p] by linarith
  have lq: "1 \<le> bitlen q" using q bitlen_eq_zero_iff [of q] bitlen_nonneg [of q] by linarith
  have cast_le: "(2::rat) ^ n \<le> of_int k" if "2 ^ n \<le> k" for n k
    using that by (metis of_int_le_iff of_int_numeral of_int_power)
  have cast_less: "of_int k < (2::rat) ^ n" if "k < 2 ^ n" for n k
    using that by (metis of_int_less_iff of_int_numeral of_int_power)
  have P1: "pow2 (bitlen p - 1) \<le> of_int p"
    using cast_le [OF bp(1)] lp by (simp add: pow2_def)
  have P2: "(of_int p :: rat) < pow2 (bitlen p)"
    using cast_less [OF bp(2)] lp by (simp add: pow2_def)
  have Q1: "pow2 (bitlen q - 1) \<le> of_int q"
    using cast_le [OF bq(1)] lq by (simp add: pow2_def)
  have Q2: "(of_int q :: rat) < pow2 (bitlen q)"
    using cast_less [OF bq(2)] lq by (simp add: pow2_def)
  have qpos: "(0::rat) < of_int q" using q by simp
  have upper: "x < pow2 (d + 1)"
  proof -
    have "pow2 (d + 1) * of_int q \<ge> pow2 (d + 1) * pow2 (bitlen q - 1)"
      using Q1 pow2_pos [of "d + 1"] by simp
    moreover have "pow2 (d + 1) * pow2 (bitlen q - 1) = pow2 (bitlen p)"
      by (simp add: d_def flip: pow2_add)
    ultimately have "of_int p < pow2 (d + 1) * of_int q" using P2 by linarith
    then show ?thesis using qpos by (simp add: x pos_divide_less_eq)
  qed
  have lower: "pow2 (d - 1) \<le> x"
  proof -
    have "pow2 (d - 1) * of_int q \<le> pow2 (d - 1) * pow2 (bitlen q)"
      using Q2 pow2_pos [of "d - 1"] by simp
    moreover have "pow2 (d - 1) * pow2 (bitlen q) = pow2 (bitlen p - 1)"
      by (simp add: d_def flip: pow2_add)
    ultimately have "pow2 (d - 1) * of_int q \<le> of_int p" using P1 by linarith
    then show ?thesis using qpos by (simp add: x pos_le_divide_eq)
  qed
  have fl: "floor_log2 x = (if pow2 d \<le> x then d else d - 1)"
    by (simp add: floor_log2_def pq d_def Let_def)
  show "pow2 (floor_log2 x) \<le> x" using lower by (simp add: fl)
  show "x < pow2 (floor_log2 x + 1)" using upper by (auto simp add: fl)
qed

lemma floor_log2_mono:
  assumes "0 < x" and "x \<le> y"
  shows "floor_log2 x \<le> floor_log2 y"
proof -
  have "pow2 (floor_log2 x) < pow2 (floor_log2 y + 1)"
    using floor_log2_bounds(1) [OF assms(1)] floor_log2_bounds(2) [of y] assms by linarith
  then show ?thesis using pow2_less_cancel by fastforce
qed

lemma round_half_even_cases:
  "round_half_even y = \<lfloor>y\<rfloor> \<or> round_half_even y = \<lfloor>y\<rfloor> + 1"
  by (simp add: round_half_even_def Let_def)

lemma round_half_even_of_int: "round_half_even (of_int n) = n"
  by (simp add: round_half_even_def Let_def)

lemma round_half_even_mono:
  assumes "y \<le> z"
  shows "round_half_even y \<le> round_half_even z"
proof (cases "\<lfloor>y\<rfloor> = \<lfloor>z\<rfloor>")
  case True
  have "y - of_int \<lfloor>z\<rfloor> \<le> z - of_int \<lfloor>z\<rfloor>" using assms by simp
  then show ?thesis using True by (auto simp add: round_half_even_def Let_def)
next
  case False
  then have "\<lfloor>y\<rfloor> < \<lfloor>z\<rfloor>" using floor_mono [OF assms] by linarith
  moreover have "round_half_even y \<le> \<lfloor>y\<rfloor> + 1" using round_half_even_cases [of y] by auto
  moreover have "\<lfloor>z\<rfloor> \<le> round_half_even z" using round_half_even_cases [of z] by auto
  ultimately show ?thesis by linarith
qed

lemma fl_mag_pos_def:
  "0 < x \<Longrightarrow> fl_mag x =
     of_int (round_half_even (x / pow2 (max (floor_log2 x) (- 1022) - 52)))
       * pow2 (max (floor_log2 x) (- 1022) - 52)"
  by (simp add: fl_mag_def Let_def)

lemma fl_mag_nonneg: "0 \<le> fl_mag x"
proof (cases "0 < x")
  case True
  have "0 \<le> x / pow2 (max (floor_log2 x) (- 1022) - 52)"
    using True pow2_pos by (simp add: less_imp_le)
  then have "round_half_even 0 \<le> round_half_even (x / pow2 (max (floor_log2 x) (- 1022) - 52))"
    by (rule round_half_even_mono)
  then have "0 \<le> round_half_even (x / pow2 (max (floor_log2 x) (- 1022) - 52))"
    using round_half_even_of_int [of 0] by simp
  then show ?thesis using pow2_pos by (simp add: fl_mag_pos_def [OF True] less_imp_le)
next
  case False
  then show ?thesis by (simp add: fl_mag_def)
qed

lemma fl_mag_upper:
  assumes "0 < x" and "e = max (floor_log2 x) (- 1022)"
  shows "fl_mag x \<le> pow2 (e + 1)"
proof -
  let ?q = "pow2 (e - 52)"
  have "x < pow2 (e + 1)"
  proof -
    have "x < pow2 (floor_log2 x + 1)" by (rule floor_log2_bounds(2) [OF assms(1)])
    also have "\<dots> \<le> pow2 (e + 1)" by (rule pow2_mono) (simp add: assms(2))
    finally show ?thesis .
  qed
  moreover have "pow2 (e + 1) = of_int (2 ^ 53) * ?q"
    using pow2_add [of 53 "e - 52"] pow2_nat [of 53] by (simp add: add.commute)
  ultimately have "x / ?q \<le> of_int (2 ^ 53)"
    using pow2_pos [of "e - 52"] by (simp add: pos_divide_le_eq)
  then have "round_half_even (x / ?q) \<le> round_half_even (of_int (2 ^ 53))"
    by (rule round_half_even_mono)
  then have "round_half_even (x / ?q) \<le> 2 ^ 53"
    by (simp only: round_half_even_of_int)
  then have "(of_int (round_half_even (x / ?q)) :: rat) \<le> of_int (2 ^ 53)"
    by (simp only: of_int_le_iff)
  then have "of_int (round_half_even (x / ?q)) * ?q \<le> of_int (2 ^ 53) * ?q"
    using pow2_pos [of "e - 52"] by (simp only: mult_le_cancel_right_pos)
  then show ?thesis
    using \<open>pow2 (e + 1) = of_int (2 ^ 53) * ?q\<close> by (simp add: fl_mag_pos_def [OF assms(1)] assms(2))
qed

lemma fl_mag_lower:
  assumes "0 < x" and "- 1022 \<le> floor_log2 x"
  shows "pow2 (floor_log2 x) \<le> fl_mag x"
proof -
  let ?e = "floor_log2 x"
  let ?q = "pow2 (?e - 52)"
  have e: "max ?e (- 1022) = ?e" using assms(2) by simp
  have "pow2 ?e \<le> x" by (rule floor_log2_bounds(1) [OF assms(1)])
  moreover have p: "pow2 ?e = of_int (2 ^ 52) * ?q"
    using pow2_add [of 52 "?e - 52"] pow2_nat [of 52] by simp
  ultimately have "of_int (2 ^ 52) \<le> x / ?q"
    using pow2_pos [of "?e - 52"] by (simp add: pos_le_divide_eq)
  then have "round_half_even (of_int (2 ^ 52)) \<le> round_half_even (x / ?q)"
    by (rule round_half_even_mono)
  then have "2 ^ 52 \<le> round_half_even (x / ?q)"
    by (simp only: round_half_even_of_int)
  then have "(of_int (2 ^ 52) :: rat) \<le> of_int (round_half_even (x / ?q))"
    by (simp only: of_int_le_iff)
  then have "of_int (2 ^ 52) * ?q \<le> of_int (round_half_even (x / ?q)) * ?q"
    using pow2_pos [of "?e - 52"] by (simp only: mult_le_cancel_right_pos)
  then show ?thesis using p by (simp add: fl_mag_pos_def [OF assms(1)] e)
qed

lemma fl_mag_mono:
  assumes "x \<le> y"
  shows "fl_mag x \<le> fl_mag y"
proof (cases "0 < x")
  case False
  then have "fl_mag x = 0" by (simp add: fl_mag_def)
  then show ?thesis using fl_mag_nonneg [of y] by simp
next
  case True
  then have y: "0 < y" using assms by simp
  define ex where "ex = max (floor_log2 x) (- 1022)"
  define ey where "ey = max (floor_log2 y) (- 1022)"
  have le: "ex \<le> ey"
    using floor_log2_mono [OF True assms] by (simp add: ex_def ey_def)
  show ?thesis
  proof (cases "ex = ey")
    case True
    have "x / pow2 (ey - 52) \<le> y / pow2 (ey - 52)"
      using assms pow2_pos [of "ey - 52"] by (simp add: divide_right_mono less_imp_le)
    then have "round_half_even (x / pow2 (ey - 52)) \<le> round_half_even (y / pow2 (ey - 52))"
      by (rule round_half_even_mono)
    then have "(of_int (round_half_even (x / pow2 (ey - 52))) :: rat)
        \<le> of_int (round_half_even (y / pow2 (ey - 52)))"
      by (simp only: of_int_le_iff)
    then have "of_int (round_half_even (x / pow2 (ey - 52))) * pow2 (ey - 52)
        \<le> of_int (round_half_even (y / pow2 (ey - 52))) * pow2 (ey - 52)"
      using pow2_pos [of "ey - 52"] by (simp only: mult_le_cancel_right_pos)
    then show ?thesis
      using True by (simp add: fl_mag_pos_def [OF \<open>0 < x\<close>] fl_mag_pos_def [OF y] ex_def ey_def)
  next
    case False
    then have lt: "ex < ey" using le by simp
    then have ey': "ey = floor_log2 y" and ny: "- 1022 \<le> floor_log2 y"
      by (auto simp add: ex_def ey_def)
    have "fl_mag x \<le> pow2 (ex + 1)" by (rule fl_mag_upper [OF True ex_def])
    also have "\<dots> \<le> pow2 ey" by (rule pow2_mono) (use lt in simp)
    also have "\<dots> \<le> fl_mag y" unfolding ey' by (rule fl_mag_lower [OF y ny])
    finally show ?thesis .
  qed
qed

lemma pow2_strict_mono: "a < b \<Longrightarrow> pow2 a < pow2 b"
  by (simp add: pow2_powi power_int_strict_increasing)

lemma fl_mag_gaps:
  "fl_mag (17 / 10 - 1 / (10 * 2 ^ 31)) < fl_mag (17 / 10)"
  "fl_mag (24 / 10) < fl_mag (24 / 10 + 1 / (5 * 2 ^ 31))"
  "fl_mag (2 ^ 31) = 2 ^ 31"
  "fl_mag 1 = 1"
  by code_simp+

lemma of_nat_bound: "n < 2 ^ 31 \<Longrightarrow> (of_nat n :: rat) \<le> 2 ^ 31"
proof -
  assume "n < 2 ^ 31"
  then have "(of_nat n :: rat) < of_nat (2 ^ 31)" by (simp only: of_nat_less_iff)
  then show ?thesis by simp
qed

lemma ratio_lower:
  assumes "0 < h" and "h < 2 ^ 31"
  shows "fl_mag (17 / 10) \<le> fl_mag (of_nat w / of_nat h) \<longleftrightarrow> 17 * h \<le> 10 * w"
proof
  assume "17 * h \<le> 10 * w"
  then have "(of_nat (17 * h) :: rat) \<le> of_nat (10 * w)" by (simp only: of_nat_le_iff)
  then have "(17::rat) * of_nat h \<le> 10 * of_nat w" by simp
  then have "(17::rat) / 10 \<le> of_nat w / of_nat h"
    using assms(1) by (simp add: pos_le_divide_eq)
  then show "fl_mag (17 / 10) \<le> fl_mag (of_nat w / of_nat h)" by (rule fl_mag_mono)
next
  assume a: "fl_mag (17 / 10) \<le> fl_mag (of_nat w / of_nat h)"
  show "17 * h \<le> 10 * w"
  proof (rule ccontr)
    assume "\<not> 17 * h \<le> 10 * w"
    then have "10 * w + 1 \<le> 17 * h" by simp
    then have "(of_nat (10 * w + 1) :: rat) \<le> of_nat (17 * h)" by (simp only: of_nat_le_iff)
    then have "(10::rat) * of_nat w + 1 \<le> 17 * of_nat h" by simp
    moreover have hr: "(0::rat) < of_nat h" "(of_nat h :: rat) \<le> 2 ^ 31"
      using assms of_nat_bound [of h] by simp_all
    ultimately have "(of_nat w :: rat) \<le> ((17::rat) * of_nat h - 1) / 10" by simp
    then have "(of_nat w :: rat) / of_nat h \<le> ((17::rat) * of_nat h - 1) / 10 / of_nat h"
      by (rule divide_right_mono) simp
    also have "\<dots> = 17 / 10 - 1 / (10 * of_nat h)"
      using hr(1) by (simp add: field_simps)
    finally have "(of_nat w :: rat) / of_nat h \<le> 17 / 10 - 1 / (10 * of_nat h)" .
    also have "\<dots> \<le> 17 / 10 - 1 / (10 * 2 ^ 31)"
      using hr by (simp add: field_simps)
    finally have "fl_mag (of_nat w / of_nat h) \<le> fl_mag (17 / 10 - 1 / (10 * 2 ^ 31))"
      by (rule fl_mag_mono)
    then show False using a fl_mag_gaps(1) by linarith
  qed
qed

lemma ratio_upper:
  assumes "0 < h" and "h < 2 ^ 31"
  shows "fl_mag (of_nat w / of_nat h) \<le> fl_mag (24 / 10) \<longleftrightarrow> 10 * w \<le> 24 * h"
proof
  assume "10 * w \<le> 24 * h"
  then have "(of_nat (10 * w) :: rat) \<le> of_nat (24 * h)" by (simp only: of_nat_le_iff)
  then have "(10::rat) * of_nat w \<le> 24 * of_nat h" by simp
  then have "(of_nat w :: rat) / of_nat h \<le> 24 / 10"
    using assms(1) by (simp add: pos_divide_le_eq)
  then show "fl_mag (of_nat w / of_nat h) \<le> fl_mag (24 / 10)" by (rule fl_mag_mono)
next
  assume a: "fl_mag (of_nat w / of_nat h) \<le> fl_mag (24 / 10)"
  show "10 * w \<le> 24 * h"
  proof (rule ccontr)
    assume "\<not> 10 * w \<le> 24 * h"
    then have "12 * h + 1 \<le> 5 * w" by presburger
    then have "(of_nat (12 * h + 1) :: rat) \<le> of_nat (5 * w)" by (simp only: of_nat_le_iff)
    then have "(12::rat) * of_nat h + 1 \<le> 5 * of_nat w" by simp
    moreover have hr: "(0::rat) < of_nat h" "(of_nat h :: rat) \<le> 2 ^ 31"
      using assms of_nat_bound [of h] by simp_all
    ultimately have "((12::rat) * of_nat h + 1) / 5 \<le> of_nat w" by simp
    then have "((12::rat) * of_nat h + 1) / 5 / of_nat h \<le> of_nat w / of_nat h"
      by (rule divide_right_mono) simp
    moreover have "((12::rat) * of_nat h + 1) / 5 / of_nat h = 24 / 10 + 1 / (5 * of_nat h)"
      using hr(1) by (simp add: field_simps)
    ultimately have "(24::rat) / 10 + 1 / (5 * of_nat h) \<le> of_nat w / of_nat h"
      by simp
    moreover have "(24::rat) / 10 + 1 / (5 * 2 ^ 31) \<le> 24 / 10 + 1 / (5 * of_nat h)"
      using hr by (simp add: field_simps)
    ultimately have "(24::rat) / 10 + 1 / (5 * 2 ^ 31) \<le> of_nat w / of_nat h" by linarith
    then have "fl_mag (24 / 10 + 1 / (5 * 2 ^ 31)) \<le> fl_mag (of_nat w / of_nat h)"
      by (rule fl_mag_mono)
    then show False using a fl_mag_gaps(2) by linarith
  qed
qed

lemma ratio_finite:
  assumes "h < w" and "w < 2 ^ 31" and "0 < h"
  shows "round_to_number s (of_nat w / of_nat h) = Finite s (fl_mag (of_nat w / of_nat h))"
proof -
  let ?x = "(of_nat w :: rat) / of_nat h"
  have wr: "(of_nat w :: rat) \<le> 2 ^ 31"
    using assms(2) by (rule of_nat_bound)
  have "(1::rat) \<le> of_nat h" using assms(3) by simp
  then have "(of_nat w :: rat) * 1 \<le> of_nat w * of_nat h" by (intro mult_left_mono) simp_all
  then have "?x \<le> of_nat w" using assms(3) by (simp add: pos_divide_le_eq)
  then have "?x \<le> 2 ^ 31" using wr by linarith
  then have "fl_mag ?x \<le> fl_mag (2 ^ 31)" by (rule fl_mag_mono)
  then have up: "fl_mag ?x \<le> 2 ^ 31" by (simp only: fl_mag_gaps(3))
  have "\<not> (0 < fl_mag ?x \<and> 1024 \<le> floor_log2 (fl_mag ?x))"
  proof
    assume c: "0 < fl_mag ?x \<and> 1024 \<le> floor_log2 (fl_mag ?x)"
    have "pow2 31 < pow2 1024" by (rule pow2_strict_mono) simp
    also have "\<dots> \<le> pow2 (floor_log2 (fl_mag ?x))" by (rule pow2_mono) (use c in simp)
    also have "\<dots> \<le> fl_mag ?x" by (rule floor_log2_bounds(1)) (use c in simp)
    finally show False using up pow2_nat [of 31] by simp
  qed
  then show ?thesis by (simp add: round_to_number_def Let_def)
qed

lemma js_lit_aspect_bounds:
  "js_lit (17 / 10) = Finite False (fl_mag (17 / 10))"
  "js_lit (12 / 5) = Finite False (fl_mag (12 / 5))"
  by code_simp+

section \<open>Device detection: the properties\<close>

text \<open>
  For a window whose width and height are integers below \<open>2 ^ 31\<close>, the binary64 tests of
  the detector decide as exact arithmetic does: the device is a TV if and only if
  \<open>h < w\<close>, \<open>1280 \<le> w\<close>, \<open>720 \<le> h\<close> and \<open>17 / 10 \<le> w / h \<le> 24 / 10\<close>.
\<close>

lemma detectTVDevice_integral_window:
  assumes "\<not> Platform_isTV e" and "Platform_OS e = ''android''"
    and "window_width e = Finite False (of_nat w)"
    and "window_height e = Finite False (of_nat h)"
    and "w < 2 ^ 31"
  shows "detectTVDevice False e \<longleftrightarrow>
           h < w \<and> 1280 \<le> w \<and> 720 \<le> h \<and> 17 * h \<le> 10 * w \<and> 10 * w \<le> 24 * h"
proof (cases "h < w \<and> 1280 \<le> w \<and> 720 \<le> h")
  case False
  then show ?thesis
    using assms(1-4)
    by (auto simp add: detectTVDevice_def Let_def TV_MIN_WIDTH_def TV_MIN_HEIGHT_def
        js_lit_int_values js_gt_def js_ge_def js_le_def signed_def)
next
  case True
  then have h: "0 < h" "h < 2 ^ 31" using assms(5) by simp_all
  have d: "js_div (Finite False (of_nat w)) (Finite False (of_nat h)) =
      Finite False (fl_mag (of_nat w / of_nat h))"
    using h(1) ratio_finite [of h w False] True assms(5) by simp
  have "detectTVDevice False e \<longleftrightarrow>
      fl_mag (17 / 10) \<le> fl_mag (of_nat w / of_nat h)
      \<and> fl_mag (of_nat w / of_nat h) \<le> fl_mag (24 / 10)"
    using True assms(1-4)
    by (simp add: detectTVDevice_def Let_def TV_MIN_WIDTH_def TV_MIN_HEIGHT_def
        js_lit_int_values js_gt_def js_ge_def js_le_def signed_def d js_lit_aspect_bounds
        not_less del: js_div.simps)
  then show ?thesis using True ratio_lower [OF h, of w] ratio_upper [OF h, of w] by simp
qed

text \<open>
  C1. On an Android device whose platform does not report native TV capability, and
  with the override off, \<open>detectTVDevice\<close> classifies the device as a TV if and only if
  the window is landscape (width > height), at least 1280 wide and 720 high, and the
  quotient width / height lies between 1.7 and 2.4, both included. The comparisons, the
  quotient and the two bounds are the source's binary64 ones. In particular a window of
  1920 by 1080 is a TV and one of 1280 by 800 is not.
\<close>

theorem detectTVDevice_android_window:
  assumes "\<not> Platform_isTV e" and "Platform_OS e = ''android''"
  shows "(detectTVDevice False e \<longleftrightarrow>
            js_gt (window_width e) (window_height e)
          \<and> js_ge (window_width e) (js_lit 1280)
          \<and> js_ge (window_height e) (js_lit 720)
          \<and> js_ge (js_div (window_width e) (window_height e)) (js_lit (17 / 10))
          \<and> js_le (js_div (window_width e) (window_height e)) (js_lit (24 / 10)))
       \<and> detectTVDevice False (e\<lparr>window_width := js_lit 1920, window_height := js_lit 1080\<rparr>)
       \<and> \<not> detectTVDevice False (e\<lparr>window_width := js_lit 1280, window_height := js_lit 800\<rparr>)"
  using assms window_1920_1080 window_1280_800
  by (auto simp add: detectTVDevice_def Let_def TV_MIN_WIDTH_def TV_MIN_HEIGHT_def)

theorem detectTVDevice_android_window_witness:
  "detectTVDevice False
     \<lparr>Platform_isTV = False, Platform_OS = ''android'',
      window_width = js_lit 1920, window_height = js_lit 1080\<rparr>
   \<and> \<not> detectTVDevice False
     \<lparr>Platform_isTV = False, Platform_OS = ''android'',
      window_width = js_lit 1280, window_height = js_lit 800\<rparr>"
  using detectTVDevice_android_window
    [of "\<lparr>Platform_isTV = False, Platform_OS = ''android'',
          window_width = js_lit 1920, window_height = js_lit 1080\<rparr>", THEN conjunct2]
  by simp

text \<open>
  C4. With the override on, \<open>detectTVDevice\<close> returns true for every platform flag,
  operating system and window size.
\<close>

theorem detectTVDevice_force: "detectTVDevice True e"
  by (simp add: detectTVDevice_def)

text \<open>
  C5. The parameterless detector \<open>isAndroidTV\<close> returns what \<open>detectTVDevice\<close> returns
  with the override off, for every platform flag, operating system and window size.
\<close>

theorem isAndroidTV_eq_detectTVDevice: "isAndroidTV e = detectTVDevice False e"
  by (auto simp add: isAndroidTV_def detectTVDevice_def Let_def)

section \<open>Scaled dimensions: the properties\<close>

lemma metric_field_calculate:
  "metric_field m (calculateTVDimensions e) =
     Math_round (js_mul (js_lit (base_value m)) (js_div (window_width e) (js_lit 1920)))"
  by (cases m) (simp_all add: calculateTVDimensions_def Let_def)

text \<open>
  C6. For every window width, each field of the result of \<open>calculateTVDimensions\<close> is
  \<open>Math.round (base * (width / 1920))\<close> for its base value in the table (poster 200 by 300,
  icon 32, fonts 28, 20 and 16, spacing 8, 16 and 32, focus border 4), in the source's
  binary64 arithmetic. Nothing is clamped: at width 1920 every field is its base value,
  and at width 0 every field is 0.
\<close>

theorem calculateTVDimensions_table:
  "metric_field m (calculateTVDimensions e) = computeScaleMetrics_spec (window_width e) m
   \<and> metric_field m (calculateTVDimensions (e\<lparr>window_width := js_lit 1920\<rparr>)) = js_lit (base_value m)
   \<and> metric_field m (calculateTVDimensions (e\<lparr>window_width := js_lit 0\<rparr>)) = js_lit 0"
  by (simp add: metric_field_calculate computeScaleMetrics_spec_def scale_1920 round_base_1920
      scale_0 round_base_0)

section \<open>Remote events: the properties\<close>

lemma on_hw_event_Some:
  "on_hw_event handler (Some hw) =
     (if hw_eventKeyAction hw = 1 then [] else [(handler, to_remote_event hw)])"
  by (simp add: on_hw_event_def to_remote_event_def Let_def)

lemma on_hw_event_None: "on_hw_event handler None = []"
  by (simp add: on_hw_event_def)

lemma emit_single:
  "subscriptions s = [(obj, handler)] \<Longrightarrow> emit hwEvent s = on_hw_event handler hwEvent"
  by (simp add: emit_def)

lemma emit_each_subscription:
  "emit hwEvent s =
     concat (map (\<lambda>(obj, handler).
         case hwEvent of
           None \<Rightarrow> []
         | Some hw \<Rightarrow> if hw_eventKeyAction hw = 1 then [] else [(handler, to_remote_event hw)])
       (subscriptions s))"
  by (cases hwEvent) (simp_all add: emit_def on_hw_event_Some on_hw_event_None)

lemma TVRemoteKey_eq:
  "TVRemoteKey = {''up'', ''down'', ''left'', ''right'', ''select'', ''playPause'', ''rewind'',
      ''fastForward'', ''back'', ''menu''}"
  by (simp add: TVRemoteKey_def TV_REMOTE_KEYS_def)

lemma focus_not_key: "''focus'' \<notin> TVRemoteKey"
  by (simp add: TVRemoteKey_eq)

subsection \<open>The effects of a render\<close>

lemma render_effects_eq:
  "render_effects n handlers tv = map (\<lambda>i. (handlers i, tv)) [0..<n]"
  unfolding render_effects_def
  by (induction n) (simp_all add: useRemoteHandler_def)

lemma render_effects_single: "render_effects (Suc 0) handlers tv = [(handlers 0, tv)]"
  by (simp add: render_effects_eq)

lemma two_call_sites: "render_effects 2 ((!) [a, b]) tv = [(a, tv), (b, tv)]"
  by (simp add: render_effects_eq upt_rec)

lemma run_lifecycle_snoc:
  "run_lifecycle n (evs @ [ev]) = lifecycle_step n (run_lifecycle n evs) ev"
  by (simp add: run_lifecycle_def)

subsection \<open>An owner with one call site\<close>

lemma single_inv_initial: "single_inv initial_owner_state"
  by (simp add: single_inv_def initial_owner_state_def initial_remote_state_def)

lemma commit_single:
  assumes "single_inv st"
  shows "single_inv (commit [(handler, tv)] st)"
    and "subscriptions (remote (commit [(handler, tv)] st)) =
           (if tv then [(the (tvEventHandlerRef (remote (commit [(handler, tv)] st))), handler)]
            else [])"
  using assms
  by (auto simp add: single_inv_def commit_def run_effect_def effect_body_def effect_cleanup_def
      TVEventHandler_enable_def TVEventHandler_disable_def Let_def
      split: option.splits list.splits if_splits)

lemma unmount_single:
  assumes "single_inv st"
  shows "single_inv (unmount st)" and "subscriptions (remote (unmount st)) = []"
  using assms
  by (auto simp add: single_inv_def unmount_def effect_cleanup_def TVEventHandler_disable_def
      split: option.splits list.splits if_splits)

lemma single_inv_step: "single_inv st \<Longrightarrow> single_inv (lifecycle_step (Suc 0) st ev)"
  by (cases ev) (simp_all add: render_effects_single commit_single(1) unmount_single(1))

lemma single_inv_run: "single_inv (run_lifecycle 1 evs)"
  unfolding run_lifecycle_def
  by (induction evs rule: rev_induct) (simp_all add: single_inv_initial single_inv_step)

lemma single_inv_at_most_one: "single_inv st \<Longrightarrow> length (subscriptions (remote st)) \<le> 1"
  by (auto simp add: single_inv_def split: option.splits list.splits if_splits)

lemma emit_after_render:
  "emit hwEvent (remote (run_lifecycle 1 (evs @ [Render handlers True]))) =
     on_hw_event (handlers 0) hwEvent"
  using commit_single(2) [OF single_inv_run, of "handlers 0" True evs]
  by (simp add: run_lifecycle_snoc render_effects_single emit_def)

text \<open>
  With one call site the registration keeps to one subscription: at most one is live
  after any sequence of renders and unmounts, an unmount or a render on a device that is
  not a TV leaves none, and after a render on a TV the only one forwards to the handler
  of that render.
\<close>

lemma single_call_site_one_subscription:
  "length (subscriptions (remote (run_lifecycle 1 evs))) \<le> 1
   \<and> subscriptions (remote (run_lifecycle 1 (evs @ [Unmount]))) = []
   \<and> subscriptions (remote (run_lifecycle 1 (evs @ [Render handlers False]))) = []
   \<and> map snd (subscriptions (remote (run_lifecycle 1 (evs @ [Render handlers True])))) =
       [handlers 0]"
  using single_inv_at_most_one [OF single_inv_run, of evs]
    unmount_single(2) [OF single_inv_run, of evs]
    commit_single(2) [OF single_inv_run, of "handlers 0" False evs]
    commit_single(2) [OF single_inv_run, of "handlers 0" True evs]
  by (simp add: run_lifecycle_snoc render_effects_single)

subsection \<open>Forwarding\<close>

text \<open>
  C2. While the normalizer is active (the owner, with one call site, has rendered with a
  handler on a TV device, after any earlier life of the registration), a notification
  from the host calls the registered handler once if it has a payload and its
  \<open>eventKeyAction\<close> is not 1, and not at all otherwise: a notification without payload,
  or with code 1, is dropped. In any state whatever, with any number of enabled objects,
  each enabled object's callback follows the same rule for its own handler.
\<close>

theorem emit_forwards_once:
  "emit hwEvent (remote (run_lifecycle 1 (evs @ [Render handlers True]))) =
     (case hwEvent of
        None \<Rightarrow> []
      | Some hw \<Rightarrow> if hw_eventKeyAction hw = 1 then [] else [(handlers 0, to_remote_event hw)])
   \<and> (length (emit hwEvent (remote (run_lifecycle 1 (evs @ [Render handlers True])))) = 1
        \<longleftrightarrow> (\<exists>hw. hwEvent = Some hw \<and> hw_eventKeyAction hw \<noteq> 1))
   \<and> (emit hwEvent (remote (run_lifecycle 1 (evs @ [Render handlers True]))) = []
        \<longleftrightarrow> hwEvent = None \<or> (\<exists>hw. hwEvent = Some hw \<and> hw_eventKeyAction hw = 1))
   \<and> emit hwEvent s =
       concat (map (\<lambda>(obj, handler).
           case hwEvent of
             None \<Rightarrow> []
           | Some hw \<Rightarrow> if hw_eventKeyAction hw = 1 then [] else [(handler, to_remote_event hw)])
         (subscriptions s))"
proof -
  have "emit hwEvent s =
       concat (map (\<lambda>(obj, handler).
           case hwEvent of
             None \<Rightarrow> []
           | Some hw \<Rightarrow> if hw_eventKeyAction hw = 1 then [] else [(handler, to_remote_event hw)])
         (subscriptions s))"
    by (rule emit_each_subscription)
  then show ?thesis
    unfolding emit_after_render
    by (cases hwEvent) (simp_all add: on_hw_event_Some on_hw_event_None)
qed

text \<open>
  C3. The code of a notification is translated to a phase by a three-way split: 0 gives
  \<open>'down'\<close> (Pressed), 1 gives \<open>'up'\<close> (Released), and every other integer gives
  \<open>'long-press'\<close> (LongPressed).
\<close>

theorem to_remote_event_phase:
  "(eventKeyAction (to_remote_event hw) = Down \<longleftrightarrow> hw_eventKeyAction hw = 0)
   \<and> (eventKeyAction (to_remote_event hw) = Up \<longleftrightarrow> hw_eventKeyAction hw = 1)
   \<and> (eventKeyAction (to_remote_event hw) = LongPress
        \<longleftrightarrow> hw_eventKeyAction hw \<noteq> 0 \<and> hw_eventKeyAction hw \<noteq> 1)"
  by (simp add: to_remote_event_def)

text \<open>
  C7, as claimed, fails: a notification whose \<open>eventType\<close> is \<open>'focus'\<close>, which is none of
  the ten remote keys, reaches the registered handler.
\<close>

theorem unknown_eventType_forwarded:
  "''focus'' \<notin> TVRemoteKey
   \<and> emit (Some \<lparr>hw_eventType = ''focus'', hw_eventKeyAction = 0, hw_tag = None\<rparr>)
        (remote (run_lifecycle 1 [Render ((!) [''first'']) True]))
      = [(''first'', \<lparr>eventType = ''focus'', eventKeyAction = Down, tag = None\<rparr>)]"
  using emit_after_render [of _ "[]" "(!) [''first'']"]
  by (simp add: focus_not_key on_hw_event_Some to_remote_event_def)

text \<open>
  C7, amended. The normalizer does not look at \<open>eventType\<close>: a notification whose
  \<open>eventType\<close> is none of the ten remote keys is forwarded by the same rule as any other
  (once when its code is not 1, not at all when it is 1), and the event handed to the
  handler carries the \<open>eventType\<close> string unchanged, so still none of the ten keys.
\<close>

theorem unknown_eventType_passed_through:
  assumes "hw_eventType hw \<notin> TVRemoteKey"
  shows "emit (Some hw) (remote (run_lifecycle 1 (evs @ [Render handlers True]))) =
           (if hw_eventKeyAction hw = 1 then [] else [(handlers 0, to_remote_event hw)])
         \<and> eventType (to_remote_event hw) = hw_eventType hw
         \<and> eventType (to_remote_event hw) \<notin> TVRemoteKey"
  using assms unfolding emit_after_render
  by (simp add: on_hw_event_Some to_remote_event_def)

theorem unknown_eventType_passed_through_witness:
  "''focus'' \<notin> TVRemoteKey
   \<and> emit (Some \<lparr>hw_eventType = ''focus'', hw_eventKeyAction = 2, hw_tag = Some 7\<rparr>)
        (remote (run_lifecycle 1 [Render ((!) [''first'']) True, Render ((!) [''second'']) True]))
      = [(''second'', \<lparr>eventType = ''focus'', eventKeyAction = LongPress, tag = Some 7\<rparr>)]"
  using unknown_eventType_passed_through
    [of "\<lparr>hw_eventType = ''focus'', hw_eventKeyAction = 2, hw_tag = Some 7\<rparr>"
        "[Render ((!) [''first'']) True]" "(!) [''second'']"]
  by (simp add: focus_not_key to_remote_event_def)

subsection \<open>Two call sites\<close>

lemma run_two_mounted:
  "run_lifecycle 2 [Render ((!) [''first'', ''second'']) True] =
     \<lparr>remote = \<lparr>tvEventHandlerRef = Some 1, subscriptions = [(0, ''first''), (1, ''second'')],
                 allocated = 2\<rparr>,
      effect_slots = Some [\<lparr>slot_deps = (''first'', True), slot_has_cleanup = True\<rparr>,
                           \<lparr>slot_deps = (''second'', True), slot_has_cleanup = True\<rparr>]\<rparr>"
  by (simp add: run_lifecycle_def two_call_sites commit_def initial_owner_state_def
      initial_remote_state_def run_effect_def effect_body_def TVEventHandler_enable_def Let_def)

text \<open>
  C8. The claim is that at most one subscription is ever live, that replacing a handler
  tears the old subscription down, and that the unmount releases the subscription. The
  source does not keep to it when an owner calls \<open>useRemoteHandler\<close> twice in a render:
  each call has its own effect and its own \<open>TVEventHandler\<close>, and both write the one ref.
  After the first render on a TV two subscriptions are live. At unmount the first cleanup
  disables the object in the ref, which is the second one, and empties the ref; the
  second cleanup finds it empty; the first object stays enabled and a later notification
  still reaches the first handler. When only the first handler is replaced, the cleanup
  disables the second handler's object, and the replaced handler keeps its subscription.
\<close>

theorem two_call_sites_leak:
  "subscriptions (remote (run_lifecycle 2 [Render ((!) [''first'', ''second'']) True])) =
     [(0, ''first''), (1, ''second'')]
   \<and> subscriptions (remote (run_lifecycle 2 [Render ((!) [''first'', ''second'']) True, Unmount])) =
     [(0, ''first'')]
   \<and> emit (Some \<lparr>hw_eventType = ''select'', hw_eventKeyAction = 0, hw_tag = None\<rparr>)
        (remote (run_lifecycle 2 [Render ((!) [''first'', ''second'']) True, Unmount])) =
     [(''first'', \<lparr>eventType = ''select'', eventKeyAction = Down, tag = None\<rparr>)]
   \<and> subscriptions (remote (run_lifecycle 2
        [Render ((!) [''first'', ''second'']) True, Render ((!) [''third'', ''second'']) True])) =
     [(0, ''first''), (2, ''third'')]"
proof -
  have u: "run_lifecycle 2 [Render ((!) [''first'', ''second'']) True, Unmount] =
      unmount (run_lifecycle 2 [Render ((!) [''first'', ''second'']) True])"
    using run_lifecycle_snoc [of 2 "[Render ((!) [''first'', ''second'']) True]" Unmount] by simp
  have r: "run_lifecycle 2
        [Render ((!) [''first'', ''second'']) True, Render ((!) [''third'', ''second'']) True] =
      commit [(''third'', True), (''second'', True)]
        (run_lifecycle 2 [Render ((!) [''first'', ''second'']) True])"
    using run_lifecycle_snoc [of 2 "[Render ((!) [''first'', ''second'']) True]"
        "Render ((!) [''third'', ''second'']) True"]
    by (simp add: two_call_sites)
  have a: "subscriptions (remote (unmount (run_lifecycle 2 [Render ((!) [''first'', ''second'']) True]))) =
      [(0, ''first'')]"
    by (simp add: run_two_mounted unmount_def effect_cleanup_def TVEventHandler_disable_def)
  have b: "subscriptions (remote (commit [(''third'', True), (''second'', True)]
        (run_lifecycle 2 [Render ((!) [''first'', ''second'']) True]))) = [(0, ''first''), (2, ''third'')]"
    by (simp add: run_two_mounted commit_def effect_cleanup_def TVEventHandler_disable_def
        run_effect_def effect_body_def TVEventHandler_enable_def Let_def)
  show ?thesis
    unfolding u r
    by (simp add: a b emit_single [OF a] on_hw_event_Some to_remote_event_def)
       (simp add: run_two_mounted)
qed

section \<open>The hook's memoised results: the properties\<close>

lemma useMemo_slot:
  "fst (useMemo slot compute deps) = Some (deps, snd (useMemo slot compute deps))"
  by (auto simp add: useMemo_def Let_def split: option.splits)

lemma useMemo_value:
  "snd (useMemo slot compute deps) =
     (case slot of
        None \<Rightarrow> compute ()
      | Some (d, v) \<Rightarrow> if d = deps then v else compute ())"
  by (auto simp add: useMemo_def Let_def split: option.splits)

lemma useTVDevice_isTVDevice_memo:
  "isTVDevice_memo (fst (useTVDevice st s e)) =
     Some (forceTVMode s, isTVDevice (snd (useTVDevice st s e)))"
  using useMemo_slot [of "isTVDevice_memo st" _ "forceTVMode s"]
  by (simp add: useTVDevice_def Let_def split_beta)

lemma useTVDevice_tvDimensions_memo:
  "tvDimensions_memo (fst (useTVDevice st s e)) = Some ((), tvDimensions (snd (useTVDevice st s e)))"
  using useMemo_slot [of "tvDimensions_memo st" _ "()"]
  by (simp add: useTVDevice_def Let_def split_beta)

lemma useTVDevice_isTVDevice:
  "isTVDevice (snd (useTVDevice st s e)) =
     (case isTVDevice_memo st of
        None \<Rightarrow> detectTVDevice (case forceTVMode s of None \<Rightarrow> False | Some b \<Rightarrow> b) e
      | Some (d, v) \<Rightarrow>
          if d = forceTVMode s then v
          else detectTVDevice (case forceTVMode s of None \<Rightarrow> False | Some b \<Rightarrow> b) e)"
  by (simp add: useTVDevice_def Let_def split_beta useMemo_value)

lemma useTVDevice_tvDimensions:
  "tvDimensions (snd (useTVDevice st s e)) =
     (case tvDimensions_memo st of None \<Rightarrow> calculateTVDimensions e | Some (d, v) \<Rightarrow> v)"
  by (simp add: useTVDevice_def Let_def split_beta useMemo_value split: option.splits)

lemma hook_state_after_snoc:
  "hook_state_after st (rs @ [(s, e)]) = fst (useTVDevice (hook_state_after st rs) s e)"
  by (simp add: hook_state_after_def)

lemma tvDimensions_memo_kept:
  "tvDimensions_memo st = Some ((), d) \<Longrightarrow> tvDimensions_memo (hook_state_after st rs) = Some ((), d)"
proof (induction rs rule: rev_induct)
  case Nil
  then show ?case by (simp add: hook_state_after_def)
next
  case (snoc r rs)
  obtain s e where r: "r = (s, e)" by (cases r)
  show ?case
    using snoc
    by (simp add: r hook_state_after_snoc useTVDevice_tvDimensions_memo useTVDevice_tvDimensions)
qed

lemma tvDimensions_first_render:
  "tvDimensions_memo (hook_state_after initial_hook_state ((s0, e0) # rest)) =
     Some ((), calculateTVDimensions e0)"
proof -
  have "hook_state_after initial_hook_state ((s0, e0) # rest) =
          hook_state_after (fst (useTVDevice initial_hook_state s0 e0)) rest"
    by (simp add: hook_state_after_def)
  moreover have "tvDimensions_memo (fst (useTVDevice initial_hook_state s0 e0)) =
      Some ((), calculateTVDimensions e0)"
    by (simp add: useTVDevice_tvDimensions_memo useTVDevice_tvDimensions initial_hook_state_def)
  ultimately show ?thesis by (simp add: tvDimensions_memo_kept)
qed

lemma useTVDevice_first:
  "isTVDevice (snd (useTVDevice initial_hook_state s e)) =
     detectTVDevice (case forceTVMode s of None \<Rightarrow> False | Some b \<Rightarrow> b) e"
  "tvDimensions (snd (useTVDevice initial_hook_state s e)) = calculateTVDimensions e"
  by (simp_all add: useTVDevice_isTVDevice useTVDevice_tvDimensions initial_hook_state_def)

lemma useTVDevice_next:
  "isTVDevice (snd (useTVDevice (fst (useTVDevice st sp ep)) s e)) =
     (if forceTVMode s = forceTVMode sp then isTVDevice (snd (useTVDevice st sp ep))
      else detectTVDevice (case forceTVMode s of None \<Rightarrow> False | Some b \<Rightarrow> b) e)"
proof -
  have "isTVDevice (snd (useTVDevice (fst (useTVDevice st sp ep)) s e)) =
      (case isTVDevice_memo (fst (useTVDevice st sp ep)) of
        None \<Rightarrow> detectTVDevice (case forceTVMode s of None \<Rightarrow> False | Some b \<Rightarrow> b) e
      | Some (d, v) \<Rightarrow>
          if d = forceTVMode s then v
          else detectTVDevice (case forceTVMode s of None \<Rightarrow> False | Some b \<Rightarrow> b) e)"
    by (rule useTVDevice_isTVDevice)
  then show ?thesis by (auto simp add: useTVDevice_isTVDevice_memo)
qed

lemma useTVDevice_later:
  "tvDimensions (snd (useTVDevice (hook_state_after initial_hook_state ((s0, e0) # rest)) s e)) =
     calculateTVDimensions e0"
proof -
  have "tvDimensions (snd (useTVDevice (hook_state_after initial_hook_state ((s0, e0) # rest)) s e)) =
      (case tvDimensions_memo (hook_state_after initial_hook_state ((s0, e0) # rest)) of
         None \<Rightarrow> calculateTVDimensions e | Some (d, v) \<Rightarrow> v)"
    by (rule useTVDevice_tvDimensions)
  then show ?thesis by (simp add: tvDimensions_first_render)
qed

text \<open>
  C9, amended. The classification is computed at the first render and computed again
  exactly when \<open>settings.forceTVMode\<close> differs from its value at the previous render,
  from the new override and the window of that render; otherwise the previous value is
  exposed again. The dimensions are computed at the first render only: at every later
  render the exposed dimensions are those of the first render's window.
\<close>

theorem useTVDevice_memoised:
  "tvDimensions (snd (useTVDevice (hook_state_after initial_hook_state ((s0, e0) # rest)) s e)) =
     calculateTVDimensions e0
   \<and> isTVDevice (snd (useTVDevice (hook_state_after initial_hook_state (pre @ [(sp, ep)])) s e)) =
       (if forceTVMode s = forceTVMode sp
        then isTVDevice (snd (useTVDevice (hook_state_after initial_hook_state pre) sp ep))
        else detectTVDevice (case forceTVMode s of None \<Rightarrow> False | Some b \<Rightarrow> b) e)
   \<and> isTVDevice (snd (useTVDevice initial_hook_state s e)) =
       detectTVDevice (case forceTVMode s of None \<Rightarrow> False | Some b \<Rightarrow> b) e
   \<and> tvDimensions (snd (useTVDevice initial_hook_state s e)) = calculateTVDimensions e"
  by (simp add: useTVDevice_later hook_state_after_snoc useTVDevice_next useTVDevice_first)

lemma posterWidth_960:
  "Math_round (js_mul (js_lit 200) (js_div (js_lit 960) (js_lit 1920))) = Finite False 100"
  by code_simp

lemma posterWidth_1920:
  "Math_round (js_mul (js_lit 200) (js_div (js_lit 1920) (js_lit 1920))) = Finite False 200"
  by code_simp

lemma posterWidth_calculate:
  "posterWidth (calculateTVDimensions e) =
     Math_round (js_mul (js_lit 200) (js_div (window_width e) (js_lit 1920)))"
  by (simp add: calculateTVDimensions_def Let_def)

lemma detect_1920_1080:
  "detectTVDevice False \<lparr>Platform_isTV = False, Platform_OS = ''android'',
      window_width = js_lit 1920, window_height = js_lit 1080\<rparr>"
  using window_1920_1080
  by (simp add: detectTVDevice_def Let_def)

lemma detect_960_540:
  "\<not> detectTVDevice False \<lparr>Platform_isTV = False, Platform_OS = ''android'',
      window_width = js_lit 960, window_height = js_lit 540\<rparr>"
proof -
  have "\<not> js_ge (js_lit 960) TV_MIN_WIDTH" by code_simp
  then show ?thesis by (simp add: detectTVDevice_def Let_def)
qed

text \<open>
  C9, as claimed, fails: after a first render in a window of 1920 by 1080, a render in a
  window of 960 by 540 with the same settings exposes the dimensions and the
  classification of the first window, not those of the current one.
\<close>

theorem useTVDevice_stale_after_resize:
  "tvDimensions (snd (useTVDevice
       (hook_state_after initial_hook_state
          [(\<lparr>forceTVMode = Some False\<rparr>,
            \<lparr>Platform_isTV = False, Platform_OS = ''android'',
             window_width = js_lit 1920, window_height = js_lit 1080\<rparr>)])
       \<lparr>forceTVMode = Some False\<rparr>
       \<lparr>Platform_isTV = False, Platform_OS = ''android'',
        window_width = js_lit 960, window_height = js_lit 540\<rparr>))
     \<noteq> calculateTVDimensions
         \<lparr>Platform_isTV = False, Platform_OS = ''android'',
          window_width = js_lit 960, window_height = js_lit 540\<rparr>
   \<and> isTVDevice (snd (useTVDevice
       (hook_state_after initial_hook_state
          [(\<lparr>forceTVMode = Some False\<rparr>,
            \<lparr>Platform_isTV = False, Platform_OS = ''android'',
             window_width = js_lit 1920, window_height = js_lit 1080\<rparr>)])
       \<lparr>forceTVMode = Some False\<rparr>
       \<lparr>Platform_isTV = False, Platform_OS = ''android'',
        window_width = js_lit 960, window_height = js_lit 540\<rparr>))
     \<noteq> detectTVDevice False
         \<lparr>Platform_isTV = False, Platform_OS = ''android'',
          window_width = js_lit 960, window_height = js_lit 540\<rparr>"
proof -
  let ?s = "\<lparr>forceTVMode = Some False\<rparr>"
  let ?e1 = "\<lparr>Platform_isTV = False, Platform_OS = ''android'',
      window_width = js_lit 1920, window_height = js_lit 1080\<rparr>"
  let ?e2 = "\<lparr>Platform_isTV = False, Platform_OS = ''android'',
      window_width = js_lit 960, window_height = js_lit 540\<rparr>"
  let ?st = "hook_state_after initial_hook_state [(?s, ?e1)]"
  have memo: "tvDimensions_memo ?st = Some ((), calculateTVDimensions ?e1)"
    by (rule tvDimensions_first_render)
  have dims: "tvDimensions (snd (useTVDevice ?st ?s ?e2)) = calculateTVDimensions ?e1"
    by (rule useTVDevice_later)
  have "posterWidth (calculateTVDimensions ?e1) \<noteq> posterWidth (calculateTVDimensions ?e2)"
    by (simp add: posterWidth_calculate posterWidth_960 posterWidth_1920)
  then have a: "calculateTVDimensions ?e1 \<noteq> calculateTVDimensions ?e2" by auto
  have st: "?st = fst (useTVDevice initial_hook_state ?s ?e1)"
    by (simp add: hook_state_after_def)
  have "isTVDevice (snd (useTVDevice ?st ?s ?e2)) =
          isTVDevice (snd (useTVDevice initial_hook_state ?s ?e1))"
    unfolding st by (simp add: useTVDevice_next)
  also have "\<dots> = detectTVDevice False ?e1"
    by (simp add: useTVDevice_first)
  finally have b: "isTVDevice (snd (useTVDevice ?st ?s ?e2)) \<noteq> detectTVDevice False ?e2"
    using detect_1920_1080 detect_960_540 by simp
  show ?thesis using a b dims by simp
qed

section \<open>Tab layout: the properties\<close>

lemma js_get_SCREEN_COMPONENTS_constructor:
  "js_get SCREEN_COMPONENTS ''constructor'' = Inherited ''constructor''"
  by (simp add: js_get_def SCREEN_COMPONENTS_def Object_prototype_def)

text \<open>
  C10. The claim is that every route key that is not a registered screen falls back to
  the Home screen. The source does not do so for the key \<open>'constructor'\<close>: it is not a
  key of \<open>SCREEN_COMPONENTS\<close>, yet the property read finds the inherited
  \<open>Object.prototype.constructor\<close>, which is truthy, so the fallback is not taken and the
  element type is that function, not the Home screen.
\<close>

theorem TVTabLayout_constructor:
  "map_of SCREEN_COMPONENTS ''constructor'' = None
   \<and> TVTabLayout (Some ''constructor'') = Inherited ''constructor''
   \<and> TVTabLayout (Some ''constructor'') \<noteq> Component HomeScreen"
  by (simp add: TVTabLayout_def CurrentScreen_def Let_def js_get_def SCREEN_COMPONENTS_def
      Object_prototype_def)

text \<open>The fallback is taken for the keys that \<open>Object.prototype\<close> does not hold either.\<close>

lemma CurrentScreen_fallback:
  assumes "map_of SCREEN_COMPONENTS activeRoute = None" and "activeRoute \<notin> set Object_prototype"
  shows "CurrentScreen activeRoute = Component HomeScreen"
  using assms by (simp add: CurrentScreen_def js_get_def Let_def)

lemma CurrentScreen_registered:
  "map_of SCREEN_COMPONENTS activeRoute = Some c \<Longrightarrow> CurrentScreen activeRoute = Component c"
  by (simp add: CurrentScreen_def js_get_def Let_def)

end
